theory Spec2Isabelle
  imports Main "HOL-Library.AList"
begin

section \<open>The flat app-host adapter of \<^verbatim>\<open>apphost.go\<close>\<close>

text \<open>
  The adapter keeps two registries (service name to listener, connection identifier to
  stream) and a shutdown flag, and delegates every network operation to an external
  stack (\<^verbatim>\<open>astral\<close>, \<^verbatim>\<open>id\<close>, \<^verbatim>\<open>uuid\<close>, \<^verbatim>\<open>log\<close>, \<^verbatim>\<open>time\<close>).
  The embedding is sequential: one call runs to its end before the next one starts, and
  each registry access is one atomic step, which is what the two mutexes give.
\<close>

subsection \<open>Data\<close>

text \<open>
  A \<^verbatim>\<open>*astral.Listener\<close> and an \<^verbatim>\<open>io.ReadWriteCloser\<close> are non-nil references of the
  external stack; they are modelled by their identity. A nil reference is \<open>None\<close> of the
  option type where the code can pass one. The error values of the external stack are
  modelled by their message.
\<close>

type_synonym listener = nat
type_synonym conn = nat
type_synonym ext_error = string

text \<open>\<^verbatim>\<open>id.Identity\<close>: the zero value \<^verbatim>\<open>id.Identity{}\<close> or a parsed public key.\<close>

datatype identity = Identity_zero | Identity_key string

text \<open>
  The Go \<^verbatim>\<open>error\<close> values the adapter returns, by where they come from:
  \<open>NotFound\<close> is built by the adapter itself (\<^verbatim>\<open>errors.New\<close>, \<^verbatim>\<open>fmt.Errorf\<close>) when a
  registry lookup finds nothing, and carries the message;
  \<open>MalformedInput\<close> is the error returned by \<^verbatim>\<open>id.ParsePublicKeyHex\<close>;
  \<open>UnderlyingFailure\<close> is an error returned by the stack, a listener or a stream.
\<close>

datatype error = NotFound string | MalformedInput ext_error | UnderlyingFailure ext_error

text \<open>
  The struct \<^verbatim>\<open>AppHostFlatAdapter\<close> without its two mutexes. A Go map is a list of
  key-value pairs with distinct keys; the nil map is \<open>None\<close>.
\<close>

record AppHostFlatAdapter =
  closed :: bool
  listeners :: "(string \<times> listener) list option"
  connections :: "(string \<times> conn) list option"

text \<open>\<^verbatim>\<open>type NodeInfo struct\<close>.\<close>

record NodeInfo =
  Identity :: string
  Name :: string

text \<open>
  The calls the adapter issues to the outside, in the order it issues them. The event of
  \<^verbatim>\<open>uuid.New\<close> records the value that was drawn.
\<close>

datatype event =
    E_astral_Register string
  | E_listener_Close listener
  | E_listener_Accept listener
  | E_conn_Close conn
  | E_conn_Write conn string
  | E_conn_Read conn
  | E_astral_Query identity string
  | E_astral_QueryName string string
  | E_astral_Resolve string
  | E_astral_GetNodeInfo identity
  | E_uuid_New string
  | E_log_Println
  | E_time_Sleep int

text \<open>
  The external stack: what each outside call answers, given the calls issued so far.
  Nothing is assumed about the answers, except that every outside call returns one.
  A read answers the bytes the stream delivers and the error it reports;
  \<^verbatim>\<open>id.ParsePublicKeyHex\<close> and \<^verbatim>\<open>Identity.String\<close> are pure.
\<close>

record stack =
  astral_Register :: "event list \<Rightarrow> string \<Rightarrow> ext_error + listener"
  listener_Close :: "event list \<Rightarrow> listener \<Rightarrow> ext_error option"
  listener_Accept :: "event list \<Rightarrow> listener \<Rightarrow> ext_error + conn"
  conn_Close :: "event list \<Rightarrow> conn \<Rightarrow> ext_error option"
  conn_Write :: "event list \<Rightarrow> conn \<Rightarrow> string \<Rightarrow> ext_error option"
  conn_Read :: "event list \<Rightarrow> conn \<Rightarrow> string \<times> ext_error option"
  id_ParsePublicKeyHex :: "string \<Rightarrow> ext_error + identity"
  identity_String :: "identity \<Rightarrow> string"
  astral_Query :: "event list \<Rightarrow> identity \<Rightarrow> string \<Rightarrow> ext_error + conn"
  astral_QueryName :: "event list \<Rightarrow> string \<Rightarrow> string \<Rightarrow> ext_error + conn"
  astral_Resolve :: "event list \<Rightarrow> string \<Rightarrow> ext_error + identity"
  astral_GetNodeInfo :: "event list \<Rightarrow> identity \<Rightarrow> ext_error + (identity \<times> string)"
  uuid_New :: "event list \<Rightarrow> string"

text \<open>
  How a call ends: it returns, or the Go runtime panics (an assignment to an entry of a
  nil map), or it never returns (the read loop).
\<close>

datatype 'a outcome = Returns 'a | Panics | Diverges

subsection \<open>Construction and shutdown\<close>


text \<open>The values a \<^verbatim>\<open>range\<close> loop visits; ranging over the nil map visits nothing.\<close>

definition range_values :: "(string \<times> 'v) list option \<Rightarrow> 'v list" where
  "range_values m = (case m of None \<Rightarrow> [] | Some kvs \<Rightarrow> map snd kvs)"

text \<open>
  One sweep \<^verbatim>\<open>for _, closer := range m { _ = closer.Close() }\<close>: \<open>cl\<close> is what the
  stack answers to a \<^verbatim>\<open>Close\<close> and \<open>ev\<close> the event of the call. The answer goes to the
  blank identifier.
\<close>

fun close_all ::
  "(event list \<Rightarrow> nat \<Rightarrow> ext_error option) \<Rightarrow> (nat \<Rightarrow> event) \<Rightarrow> event list \<Rightarrow> nat list
    \<Rightarrow> event list" where
  "close_all cl ev hist [] = hist"
| "close_all cl ev hist (closer # rest) =
     (let _ = cl hist closer in close_all cl ev (hist @ [ev closer]) rest)"

text \<open>
  \<^verbatim>\<open>CloseAppHostFlatAdapter\<close>. Go leaves the order of a \<^verbatim>\<open>range\<close> over a map open; the
  model visits the entries in list order.
\<close>

definition CloseAppHostFlatAdapter ::
  "stack \<Rightarrow> AppHostFlatAdapter \<Rightarrow> event list \<Rightarrow> AppHostFlatAdapter \<times> event list" where
  "CloseAppHostFlatAdapter stk api hist =
     (let hist1 = close_all (listener_Close stk) E_listener_Close hist
                    (range_values (listeners api));
          hist2 = close_all (conn_Close stk) E_conn_Close hist1
                    (range_values (connections api))
      in (api\<lparr>connections := None, listeners := None, closed := True\<rparr>,
          hist2 @ [E_log_Println]))"

subsection \<open>The registries\<close>

definition getListener :: "AppHostFlatAdapter \<Rightarrow> string \<Rightarrow> listener option" where
  "getListener api service =
     (if closed api then None
      else case listeners api of None \<Rightarrow> None | Some m \<Rightarrow> map_of m service)"

definition setListener ::
  "AppHostFlatAdapter \<Rightarrow> string \<Rightarrow> listener option \<Rightarrow> AppHostFlatAdapter outcome" where
  "setListener api service listener =
     (if closed api then Returns api
      else case listener of
        Some l \<Rightarrow>
          (case listeners api of
             None \<Rightarrow> Panics
           | Some m \<Rightarrow> Returns (api\<lparr>listeners := Some (AList.update service l m)\<rparr>))
      | None \<Rightarrow>
          (case listeners api of
             None \<Rightarrow> Returns api
           | Some m \<Rightarrow> Returns (api\<lparr>listeners := Some (AList.delete service m)\<rparr>)))"

definition getConnection :: "AppHostFlatAdapter \<Rightarrow> string \<Rightarrow> conn option" where
  "getConnection api connectionId =
     (if closed api then None
      else case connections api of None \<Rightarrow> None | Some m \<Rightarrow> map_of m connectionId)"

definition setConnection ::
  "AppHostFlatAdapter \<Rightarrow> string \<Rightarrow> conn option \<Rightarrow> AppHostFlatAdapter outcome" where
  "setConnection api connectionId connection =
     (if closed api then Returns api
      else case connection of
        Some c \<Rightarrow>
          (case connections api of
             None \<Rightarrow> Panics
           | Some m \<Rightarrow> Returns (api\<lparr>connections := Some (AList.update connectionId c m)\<rparr>))
      | None \<Rightarrow>
          (case connections api of
             None \<Rightarrow> Returns api
           | Some m \<Rightarrow> Returns (api\<lparr>connections := Some (AList.delete connectionId m)\<rparr>)))"

subsection \<open>The operations\<close>

text \<open>
  Every operation takes the stack, the adapter and the calls issued so far, and returns
  its Go results with the adapter and the calls afterwards. A Go \<^verbatim>\<open>error\<close> result is
  an \<open>error option\<close>, \<open>None\<close> for nil.
\<close>

text \<open>\<^verbatim>\<open>Log\<close> and \<^verbatim>\<open>LogArr\<close> print their arguments, which the model leaves out.\<close>

definition Log :: "AppHostFlatAdapter \<Rightarrow> event list \<Rightarrow> AppHostFlatAdapter \<times> event list" where
  "Log api hist = (api, hist @ [E_log_Println])"

definition LogArr :: "AppHostFlatAdapter \<Rightarrow> event list \<Rightarrow> AppHostFlatAdapter \<times> event list" where
  "LogArr api hist = (api, hist @ [E_log_Println])"

definition Sleep ::
  "AppHostFlatAdapter \<Rightarrow> event list \<Rightarrow> int \<Rightarrow> AppHostFlatAdapter \<times> event list" where
  "Sleep api hist duration = (api, hist @ [E_time_Sleep duration])"

definition ServiceRegister ::
  "stack \<Rightarrow> AppHostFlatAdapter \<Rightarrow> event list \<Rightarrow> string
    \<Rightarrow> (error option \<times> AppHostFlatAdapter \<times> event list) outcome" where
  "ServiceRegister stk api hist service =
     (let hist1 = hist @ [E_astral_Register service] in
      case astral_Register stk hist service of
        Inl e \<Rightarrow> Returns (Some (UnderlyingFailure e), api, hist1)
      | Inr listener \<Rightarrow>
          (case setListener api service (Some listener) of
             Returns api1 \<Rightarrow> Returns (None, api1, hist1)
           | Panics \<Rightarrow> Panics
           | Diverges \<Rightarrow> Diverges))"

definition ServiceClose ::
  "stack \<Rightarrow> AppHostFlatAdapter \<Rightarrow> event list \<Rightarrow> string
    \<Rightarrow> (error option \<times> AppHostFlatAdapter \<times> event list) outcome" where
  "ServiceClose stk api hist service =
     (case getListener api service of
        None \<Rightarrow>
          Returns (Some (NotFound (''[ServiceClose] not listening on port: '' @ service)),
                   api, hist)
      | Some listener \<Rightarrow>
          (let hist1 = hist @ [E_listener_Close listener] in
           case listener_Close stk hist listener of
             Some e \<Rightarrow>
               (case setListener api service None of
                  Returns api1 \<Rightarrow> Returns (Some (UnderlyingFailure e), api1, hist1)
                | Panics \<Rightarrow> Panics
                | Diverges \<Rightarrow> Diverges)
           | None \<Rightarrow> Returns (None, api, hist1)))"

definition ConnAccept ::
  "stack \<Rightarrow> AppHostFlatAdapter \<Rightarrow> event list \<Rightarrow> string
    \<Rightarrow> ((string \<times> error option) \<times> AppHostFlatAdapter \<times> event list) outcome" where
  "ConnAccept stk api hist service =
     (case getListener api service of
        None \<Rightarrow>
          Returns (('''', Some (NotFound (''[ConnAccept] not listening on port: '' @ service))),
                   api, hist)
      | Some listener \<Rightarrow>
          (let hist1 = hist @ [E_listener_Accept listener] in
           case listener_Accept stk hist listener of
             Inl e \<Rightarrow> Returns (('''', Some (UnderlyingFailure e)), api, hist1)
           | Inr conn \<Rightarrow>
               (let id' = uuid_New stk hist1;
                    hist2 = hist1 @ [E_uuid_New id'] in
                case setConnection api id' (Some conn) of
                  Returns api1 \<Rightarrow> Returns ((id', None), api1, hist2)
                | Panics \<Rightarrow> Panics
                | Diverges \<Rightarrow> Diverges)))"

definition ConnClose ::
  "stack \<Rightarrow> AppHostFlatAdapter \<Rightarrow> event list \<Rightarrow> string
    \<Rightarrow> (error option \<times> AppHostFlatAdapter \<times> event list) outcome" where
  "ConnClose stk api hist id' =
     (case getConnection api id' of
        None \<Rightarrow>
          Returns (Some (NotFound (''[ConnClose] not found connection with id: '' @ id')),
                   api, hist)
      | Some conn \<Rightarrow>
          (let hist1 = hist @ [E_conn_Close conn] in
           case conn_Close stk hist conn of
             None \<Rightarrow>
               (case setConnection api id' None of
                  Returns api1 \<Rightarrow> Returns (None, api1, hist1)
                | Panics \<Rightarrow> Panics
                | Diverges \<Rightarrow> Diverges)
           | Some e \<Rightarrow> Returns (Some (UnderlyingFailure e), api, hist1)))"

definition ConnWrite ::
  "stack \<Rightarrow> AppHostFlatAdapter \<Rightarrow> event list \<Rightarrow> string \<Rightarrow> string
    \<Rightarrow> (error option \<times> AppHostFlatAdapter \<times> event list) outcome" where
  "ConnWrite stk api hist id' data =
     (case getConnection api id' of
        None \<Rightarrow>
          Returns (Some (NotFound (''[ConnWrite] not found connection with id: '' @ id')),
                   api, hist)
      | Some conn \<Rightarrow>
          Returns (map_option UnderlyingFailure (conn_Write stk hist conn data),
                   api, hist @ [E_conn_Write conn data]))"

text \<open>\<^verbatim>\<open>make([]byte, 4096)\<close>: the length of the read buffer.\<close>

definition buf_len :: nat where
  "buf_len = 4096"

text \<open>
  One \<^verbatim>\<open>conn.Read(buf)\<close>: the stream can fill at most the buffer, so \<^verbatim>\<open>buf[0:n]\<close> is what
  it delivers cut at the length of the buffer, and \<open>n\<close> is its length.
\<close>

definition read_buf :: "stack \<Rightarrow> event list \<Rightarrow> conn \<Rightarrow> string \<times> ext_error option" where
  "read_buf stk hist conn =
     (case conn_Read stk hist conn of (bytes, err) \<Rightarrow> (take buf_len bytes, err))"

text \<open>
  The \<^verbatim>\<open>for\<close> loop of \<^verbatim>\<open>ConnRead\<close> with the accumulator \<open>arr\<close>. The deferred function
  makes \<open>arr\<close> the data result on both exits. The loop has no bound: \<open>None\<close> is a loop
  that never exits.
\<close>

partial_function (option) ConnRead_loop ::
  "stack \<Rightarrow> conn \<Rightarrow> event list \<Rightarrow> string \<Rightarrow> ((string \<times> error option) \<times> event list) option" where
  "ConnRead_loop stk conn hist arr =
     (case read_buf stk hist conn of
        (bytes, Some e) \<Rightarrow> Some ((arr, Some (UnderlyingFailure e)), hist @ [E_conn_Read conn])
      | (bytes, None) \<Rightarrow>
          if length bytes < buf_len
          then Some ((arr @ bytes, None), hist @ [E_conn_Read conn])
          else ConnRead_loop stk conn (hist @ [E_conn_Read conn]) (arr @ bytes))"

declare ConnRead_loop.simps [code]

definition ConnRead ::
  "stack \<Rightarrow> AppHostFlatAdapter \<Rightarrow> event list \<Rightarrow> string
    \<Rightarrow> ((string \<times> error option) \<times> AppHostFlatAdapter \<times> event list) outcome" where
  "ConnRead stk api hist id' =
     (case getConnection api id' of
        None \<Rightarrow>
          Returns (('''', Some (NotFound (''[ConnRead] not found connection with id: '' @ id'))),
                   api, hist)
      | Some conn \<Rightarrow>
          (case ConnRead_loop stk conn hist [] of
             None \<Rightarrow> Diverges
           | Some (res, hist1) \<Rightarrow> Returns (res, api, hist1)))"

definition Query ::
  "stack \<Rightarrow> AppHostFlatAdapter \<Rightarrow> event list \<Rightarrow> string \<Rightarrow> string
    \<Rightarrow> ((string \<times> error option) \<times> AppHostFlatAdapter \<times> event list) outcome" where
  "Query stk api hist identity query =
     (case (if length identity > 0 then id_ParsePublicKeyHex stk identity
            else Inr Identity_zero) of
        Inl e \<Rightarrow> Returns (('''', Some (MalformedInput e)), api, hist)
      | Inr nid \<Rightarrow>
          (let hist1 = hist @ [E_astral_Query nid query] in
           case astral_Query stk hist nid query of
             Inl e \<Rightarrow> Returns (('''', Some (UnderlyingFailure e)), api, hist1)
           | Inr conn \<Rightarrow>
               (let connId = uuid_New stk hist1;
                    hist2 = hist1 @ [E_uuid_New connId] in
                case setConnection api connId (Some conn) of
                  Returns api1 \<Rightarrow> Returns ((connId, None), api1, hist2)
                | Panics \<Rightarrow> Panics
                | Diverges \<Rightarrow> Diverges)))"

definition QueryName ::
  "stack \<Rightarrow> AppHostFlatAdapter \<Rightarrow> event list \<Rightarrow> string \<Rightarrow> string
    \<Rightarrow> ((string \<times> error option) \<times> AppHostFlatAdapter \<times> event list) outcome" where
  "QueryName stk api hist name query =
     (let hist1 = hist @ [E_astral_QueryName name query] in
      case astral_QueryName stk hist name query of
        Inl e \<Rightarrow> Returns (('''', Some (UnderlyingFailure e)), api, hist1)
      | Inr conn \<Rightarrow>
          (let connId = uuid_New stk hist1;
               hist2 = hist1 @ [E_uuid_New connId] in
           case setConnection api connId (Some conn) of
             Returns api1 \<Rightarrow> Returns ((connId, None), api1, hist2)
           | Panics \<Rightarrow> Panics
           | Diverges \<Rightarrow> Diverges))"

definition Resolve ::
  "stack \<Rightarrow> AppHostFlatAdapter \<Rightarrow> event list \<Rightarrow> string
    \<Rightarrow> ((string \<times> error option) \<times> AppHostFlatAdapter \<times> event list) outcome" where
  "Resolve stk api hist name =
     (let hist1 = hist @ [E_astral_Resolve name] in
      case astral_Resolve stk hist name of
        Inl e \<Rightarrow> Returns (('''', Some (UnderlyingFailure e)), api, hist1)
      | Inr identity \<Rightarrow> Returns ((identity_String stk identity, None), api, hist1))"

definition NodeInfo_zero :: NodeInfo where
  "NodeInfo_zero = \<lparr>Identity = '''', Name = ''''\<rparr>"

definition NodeInfo ::
  "stack \<Rightarrow> AppHostFlatAdapter \<Rightarrow> event list \<Rightarrow> string
    \<Rightarrow> ((NodeInfo \<times> error option) \<times> AppHostFlatAdapter \<times> event list) outcome" where
  "NodeInfo stk api hist identity =
     (case id_ParsePublicKeyHex stk identity of
        Inl e \<Rightarrow> Returns ((NodeInfo_zero, Some (MalformedInput e)), api, hist)
      | Inr nid \<Rightarrow>
          (let hist1 = hist @ [E_astral_GetNodeInfo nid] in
           case astral_GetNodeInfo stk hist nid of
             Inl e \<Rightarrow> Returns ((NodeInfo_zero, Some (UnderlyingFailure e)), api, hist1)
           | Inr (i, n) \<Rightarrow>
               Returns ((\<lparr>Identity = identity_String stk i, Name = n\<rparr>, None), api, hist1)))"

subsection \<open>Sequences of calls\<close>

text \<open>
  The public surface of the adapter: one constructor per exported function, with the
  arguments the embedding host passes.
\<close>

datatype call =
    Call_Log
  | Call_LogArr
  | Call_Sleep int
  | Call_ServiceRegister string
  | Call_ServiceClose string
  | Call_ConnAccept string
  | Call_ConnClose string
  | Call_ConnWrite string string
  | Call_ConnRead string
  | Call_Query string string
  | Call_QueryName string string
  | Call_Resolve string
  | Call_NodeInfo string
  | Call_CloseAppHostFlatAdapter

text \<open>What a call hands back to the host.\<close>

datatype result =
    R_unit
  | R_error "error option"
  | R_string string "error option"
  | R_info NodeInfo "error option"

definition wrap ::
  "('a \<Rightarrow> result) \<Rightarrow> ('a \<times> AppHostFlatAdapter \<times> event list) outcome
    \<Rightarrow> (result \<times> AppHostFlatAdapter \<times> event list) outcome" where
  "wrap f out =
     (case out of
        Returns (r, api1, hist1) \<Rightarrow> Returns (f r, api1, hist1)
      | Panics \<Rightarrow> Panics
      | Diverges \<Rightarrow> Diverges)"

fun step ::
  "stack \<Rightarrow> AppHostFlatAdapter \<Rightarrow> event list \<Rightarrow> call
    \<Rightarrow> (result \<times> AppHostFlatAdapter \<times> event list) outcome" where
  "step stk api hist Call_Log = Returns (R_unit, Log api hist)"
| "step stk api hist Call_LogArr = Returns (R_unit, LogArr api hist)"
| "step stk api hist (Call_Sleep d) = Returns (R_unit, Sleep api hist d)"
| "step stk api hist (Call_ServiceRegister s) = wrap R_error (ServiceRegister stk api hist s)"
| "step stk api hist (Call_ServiceClose s) = wrap R_error (ServiceClose stk api hist s)"
| "step stk api hist (Call_ConnAccept s) =
     wrap (\<lambda>(x, e). R_string x e) (ConnAccept stk api hist s)"
| "step stk api hist (Call_ConnClose c) = wrap R_error (ConnClose stk api hist c)"
| "step stk api hist (Call_ConnWrite c d) = wrap R_error (ConnWrite stk api hist c d)"
| "step stk api hist (Call_ConnRead c) =
     wrap (\<lambda>(x, e). R_string x e) (ConnRead stk api hist c)"
| "step stk api hist (Call_Query i q) =
     wrap (\<lambda>(x, e). R_string x e) (Query stk api hist i q)"
| "step stk api hist (Call_QueryName n q) =
     wrap (\<lambda>(x, e). R_string x e) (QueryName stk api hist n q)"
| "step stk api hist (Call_Resolve n) =
     wrap (\<lambda>(x, e). R_string x e) (Resolve stk api hist n)"
| "step stk api hist (Call_NodeInfo i) =
     wrap (\<lambda>(x, e). R_info x e) (NodeInfo stk api hist i)"
| "step stk api hist Call_CloseAppHostFlatAdapter =
     Returns (R_unit, CloseAppHostFlatAdapter stk api hist)"

text \<open>A host program: the calls one after the other, stopping at a panic or a call that
  never returns.\<close>

fun run ::
  "stack \<Rightarrow> AppHostFlatAdapter \<Rightarrow> event list \<Rightarrow> call list
    \<Rightarrow> (result list \<times> AppHostFlatAdapter \<times> event list) outcome" where
  "run stk api hist [] = Returns ([], api, hist)"
| "run stk api hist (c # cs) =
     (case step stk api hist c of
        Returns (r, api1, hist1) \<Rightarrow>
          (case run stk api1 hist1 cs of
             Returns (rs, api2, hist2) \<Rightarrow> Returns (r # rs, api2, hist2)
           | Panics \<Rightarrow> Panics
           | Diverges \<Rightarrow> Diverges)
      | Panics \<Rightarrow> Panics
      | Diverges \<Rightarrow> Diverges)"

subsection \<open>Observations on a run\<close>

text \<open>The values \<^verbatim>\<open>uuid.New\<close> has drawn, oldest first.\<close>

fun uuid_of :: "event \<Rightarrow> string list" where
  "uuid_of (E_uuid_New u) = [u]"
| "uuid_of _ = []"

definition drawn :: "event list \<Rightarrow> string list" where
  "drawn hist = concat (map uuid_of hist)"

text \<open>
  The connection identifier a call hands to the host: the string result of a
  \<^verbatim>\<open>ConnAccept\<close>, \<^verbatim>\<open>Query\<close> or \<^verbatim>\<open>QueryName\<close> that returned a nil error.
\<close>

fun issued_id :: "call \<Rightarrow> result \<Rightarrow> string list" where
  "issued_id (Call_ConnAccept s) (R_string i None) = [i]"
| "issued_id (Call_Query n q) (R_string i None) = [i]"
| "issued_id (Call_QueryName n q) (R_string i None) = [i]"
| "issued_id _ _ = []"

definition issued :: "call list \<Rightarrow> result list \<Rightarrow> string list" where
  "issued calls rs = concat (map2 issued_id calls rs)"

text \<open>
  The answer to the \<open>k\<close>-th \<^verbatim>\<open>conn.Read\<close> (from 0) of a \<^verbatim>\<open>ConnRead\<close> that starts at
  \<open>hist\<close>, and whether it fills the buffer without an error.
\<close>

definition nth_read ::
  "stack \<Rightarrow> conn \<Rightarrow> event list \<Rightarrow> nat \<Rightarrow> string \<times> ext_error option" where
  "nth_read stk conn hist k = read_buf stk (hist @ replicate k (E_conn_Read conn)) conn"

definition full_read :: "stack \<Rightarrow> conn \<Rightarrow> event list \<Rightarrow> nat \<Rightarrow> bool" where
  "full_read stk conn hist k =
     (snd (nth_read stk conn hist k) = None \<and>
      length (fst (nth_read stk conn hist k)) = buf_len)"

text \<open>The bytes of the reads \<open>0\<close> to \<open>k - 1\<close>, one after the other.\<close>

definition read_bytes :: "stack \<Rightarrow> conn \<Rightarrow> event list \<Rightarrow> nat \<Rightarrow> string" where
  "read_bytes stk conn hist k = concat (map (\<lambda>j. fst (nth_read stk conn hist j)) [0..<k])"

subsection \<open>A scripted stack\<close>

text \<open>
  A stack for concrete runs: every listener close answers \<open>lc\<close>, every stream close
  answers \<open>cc\<close>, the reads of a stream answer the entries of \<open>rds\<close> in turn and
  end-of-stream after them, only \<open>02ab\<close> parses as a public key, and \<^verbatim>\<open>uuid.New\<close>
  draws a string longer than every one drawn before.
\<close>

definition scripted :: "ext_error option \<Rightarrow> ext_error option
    \<Rightarrow> (string \<times> ext_error option) list \<Rightarrow> stack" where
  "scripted lc cc rds =
     \<lparr>astral_Register = (\<lambda>h s. Inr (Suc (length h))),
      listener_Close = (\<lambda>h l. lc),
      listener_Accept = (\<lambda>h l. if l = 0 then Inl ''accept failed'' else Inr (length h)),
      conn_Close = (\<lambda>h c. cc),
      conn_Write = (\<lambda>h c d. None),
      conn_Read = (\<lambda>h c.
        (let i = length (filter (\<lambda>e. e = E_conn_Read c) h)
         in if i < length rds then rds ! i else ('''', Some ''EOF''))),
      id_ParsePublicKeyHex = (\<lambda>s. if s = ''02ab'' then Inr (Identity_key s) else Inl ''bad hex''),
      identity_String = (\<lambda>i. case i of Identity_zero \<Rightarrow> '''' | Identity_key k \<Rightarrow> k),
      astral_Query = (\<lambda>h i q. if q = ''ping'' then Inl ''unreachable'' else Inr (length h)),
      astral_QueryName = (\<lambda>h n q. Inr (length h)),
      astral_Resolve = (\<lambda>h n. Inl ''unknown name''),
      astral_GetNodeInfo = (\<lambda>h i. Inl ''unknown node''),
      uuid_New = (\<lambda>h. replicate (Suc (sum_list (map length (drawn h)))) CHR ''u'')\<rparr>"

text \<open>An adapter with one listener and two open connections.\<close>

definition api_open :: AppHostFlatAdapter where
  "api_open = \<lparr>closed = False, listeners = Some [(''echo'', 7)],
                connections = Some [(''c1'', 5), (''c2'', 6)]\<rparr>"


text \<open>The adapter after shutdown.\<close>

definition api_shut :: AppHostFlatAdapter where
  "api_shut = \<lparr>closed = True, listeners = None, connections = None\<rparr>"

section \<open>Properties\<close>

subsection \<open>The registries\<close>

lemma close_all_eq: "close_all cl ev hist xs = hist @ map ev xs"
  by (induction xs arbitrary: hist) simp_all

lemma getListener_closed: "closed api \<Longrightarrow> getListener api s = None"
  by (simp add: getListener_def)

lemma getConnection_closed: "closed api \<Longrightarrow> getConnection api c = None"
  by (simp add: getConnection_def)

lemma setListener_closed: "closed api \<Longrightarrow> setListener api s l = Returns api"
  by (simp add: setListener_def)

lemma setConnection_closed: "closed api \<Longrightarrow> setConnection api c v = Returns api"
  by (simp add: setConnection_def)

lemma ConnRead_NotFound:
  "getConnection api i = None \<Longrightarrow>
   ConnRead stk api hist i =
     Returns (('''', Some (NotFound (''[ConnRead] not found connection with id: '' @ i))), api, hist)"
  by (simp add: ConnRead_def)

lemma ConnWrite_NotFound:
  "getConnection api i = None \<Longrightarrow>
   ConnWrite stk api hist i d =
     Returns (Some (NotFound (''[ConnWrite] not found connection with id: '' @ i)), api, hist)"
  by (simp add: ConnWrite_def)

lemma ConnClose_NotFound:
  "getConnection api i = None \<Longrightarrow>
   ConnClose stk api hist i =
     Returns (Some (NotFound (''[ConnClose] not found connection with id: '' @ i)), api, hist)"
  by (simp add: ConnClose_def)

lemma getConnection_Some_open:
  "getConnection api i = Some c \<Longrightarrow> \<not> closed api \<and> (\<exists>m. connections api = Some m \<and> map_of m i = Some c)"
  by (auto simp: getConnection_def split: if_splits option.splits)

lemma setConnection_delete:
  assumes "getConnection api i = Some c"
  shows "\<exists>api'. setConnection api i None = Returns api' \<and> getConnection api' i = None
      \<and> (\<forall>j. j \<noteq> i \<longrightarrow> getConnection api' j = getConnection api j)
      \<and> closed api' = closed api \<and> listeners api' = listeners api"
proof -
  from getConnection_Some_open [OF assms]
  obtain m where o: "\<not> closed api" and m: "connections api = Some m" by blast
  let ?api' = "api\<lparr>connections := Some (AList.delete i m)\<rparr>"
  have "setConnection api i None = Returns ?api'"
    using o m by (simp add: setConnection_def)
  moreover have "getConnection ?api' i = None"
    using o by (simp add: getConnection_def delete_conv)
  moreover have "\<forall>j. j \<noteq> i \<longrightarrow> getConnection ?api' j = getConnection api j"
    using o m by (simp add: getConnection_def delete_conv)
  ultimately show ?thesis by auto
qed

lemma step_closed:
  "closed api \<Longrightarrow> \<exists>r api' hist'. step stk api hist c = Returns (r, api', hist') \<and> closed api'"
  by (cases c)
     (simp_all add: Log_def LogArr_def Sleep_def wrap_def ServiceRegister_def ServiceClose_def
        ConnAccept_def ConnClose_def ConnWrite_def ConnRead_def Query_def QueryName_def
        Resolve_def NodeInfo_def CloseAppHostFlatAdapter_def Let_def
        getListener_closed getConnection_closed setListener_closed setConnection_closed
        split: sum.split prod.split)

lemma run_closed:
  "closed api \<Longrightarrow> \<exists>rs api' hist'. run stk api hist cs = Returns (rs, api', hist') \<and> closed api'"
proof (induction cs arbitrary: api hist)
  case Nil
  then show ?case by simp
next
  case (Cons c cs)
  from step_closed [OF Cons.prems, of stk hist c]
  obtain r api1 hist1 where s: "step stk api hist c = Returns (r, api1, hist1)" and c1: "closed api1"
    by blast
  from Cons.IH [OF c1, of hist1]
  obtain rs api2 hist2 where "run stk api1 hist1 cs = Returns (rs, api2, hist2)" and "closed api2"
    by blast
  with s show ?case by simp
qed

subsection \<open>The read loop\<close>

lemma nth_read_shift:
  "nth_read stk conn (hist @ [E_conn_Read conn]) j = nth_read stk conn hist (Suc j)"
  by (simp add: nth_read_def)

lemma full_read_shift:
  "full_read stk conn (hist @ [E_conn_Read conn]) j = full_read stk conn hist (Suc j)"
  by (simp add: full_read_def nth_read_shift)

lemma read_bytes_Suc:
  "read_bytes stk conn hist (Suc k) =
     fst (nth_read stk conn hist 0) @ read_bytes stk conn (hist @ [E_conn_Read conn]) k"
proof -
  have "[0..<Suc k] = 0 # map Suc [0..<k]"
    by (simp add: upt_conv_Cons map_Suc_upt del: upt_Suc)
  then show ?thesis
    by (simp add: read_bytes_def nth_read_shift comp_def del: upt_Suc)
qed

lemma loop_full:
  "full_read stk conn hist 0 \<Longrightarrow>
   ConnRead_loop stk conn hist arr =
     ConnRead_loop stk conn (hist @ [E_conn_Read conn]) (arr @ fst (nth_read stk conn hist 0))"
  by (subst ConnRead_loop.simps) (auto simp: full_read_def nth_read_def split: prod.split option.split)

lemma loop_short:
  "\<forall>j<k. full_read stk conn hist j \<Longrightarrow> nth_read stk conn hist k = (bytes, None) \<Longrightarrow>
   length bytes < buf_len \<Longrightarrow>
   ConnRead_loop stk conn hist arr =
     Some ((arr @ read_bytes stk conn hist k @ bytes, None),
           hist @ replicate (Suc k) (E_conn_Read conn))"
proof (induction k arbitrary: hist arr)
  case 0
  then show ?case
    by (subst ConnRead_loop.simps) (simp add: nth_read_def read_bytes_def)
next
  case (Suc k)
  have f0: "full_read stk conn hist 0" using Suc.prems(1) by simp
  have fs: "\<forall>j<k. full_read stk conn (hist @ [E_conn_Read conn]) j"
    using Suc.prems(1) by (simp add: full_read_shift)
  have nk: "nth_read stk conn (hist @ [E_conn_Read conn]) k = (bytes, None)"
    using Suc.prems(2) by (simp add: nth_read_shift)
  show ?case
    by (simp only: loop_full [OF f0] Suc.IH [OF fs nk Suc.prems(3)] read_bytes_Suc)
       (simp add: replicate_app_Cons_same)
qed

lemma loop_error:
  "\<forall>j<k. full_read stk conn hist j \<Longrightarrow> nth_read stk conn hist k = (bytes, Some e) \<Longrightarrow>
   ConnRead_loop stk conn hist arr =
     Some ((arr @ read_bytes stk conn hist k, Some (UnderlyingFailure e)),
           hist @ replicate (Suc k) (E_conn_Read conn))"
proof (induction k arbitrary: hist arr)
  case 0
  then show ?case
    by (subst ConnRead_loop.simps) (simp add: nth_read_def read_bytes_def)
next
  case (Suc k)
  have f0: "full_read stk conn hist 0" using Suc.prems(1) by simp
  have fs: "\<forall>j<k. full_read stk conn (hist @ [E_conn_Read conn]) j"
    using Suc.prems(1) by (simp add: full_read_shift)
  have nk: "nth_read stk conn (hist @ [E_conn_Read conn]) k = (bytes, Some e)"
    using Suc.prems(2) by (simp add: nth_read_shift)
  show ?case
    by (simp only: loop_full [OF f0] Suc.IH [OF fs nk] read_bytes_Suc)
       (simp add: replicate_app_Cons_same)
qed

lemma loop_returns_stops:
  assumes "ConnRead_loop stk0 conn0 hist0 arr0 = Some y0"
  shows "\<exists>k. \<not> full_read stk0 conn0 hist0 k"
proof (rule ConnRead_loop.raw_induct
    [where P = "\<lambda>stk conn hist arr y. \<exists>k. \<not> full_read stk conn hist k", OF _ assms])
  fix loop :: "stack \<Rightarrow> conn \<Rightarrow> event list \<Rightarrow> string
      \<Rightarrow> ((string \<times> error option) \<times> event list) option"
    and stk conn hist arr y
  assume IH: "\<And>stk conn hist arr y. loop stk conn hist arr = Some y \<Longrightarrow> \<exists>k. \<not> full_read stk conn hist k"
  assume eq: "(case read_buf stk hist conn of
      (bytes, None) \<Rightarrow>
        if length bytes < buf_len
        then Some ((arr @ bytes, None), hist @ [E_conn_Read conn])
        else loop stk conn (hist @ [E_conn_Read conn]) (arr @ bytes)
      | (bytes, Some e) \<Rightarrow>
          Some ((arr, Some (UnderlyingFailure e)), hist @ [E_conn_Read conn])) = Some y"
  show "\<exists>k. \<not> full_read stk conn hist k"
  proof (cases "full_read stk conn hist 0")
    case False
    then show ?thesis by blast
  next
    case True
    then have "loop stk conn (hist @ [E_conn_Read conn]) (arr @ fst (nth_read stk conn hist 0)) = Some y"
      using eq by (auto simp: full_read_def nth_read_def split: prod.splits option.splits if_splits)
    from IH [OF this] obtain k where "\<not> full_read stk conn (hist @ [E_conn_Read conn]) k"
      by blast
    then have "\<not> full_read stk conn hist (Suc k)" by (simp add: full_read_shift)
    then show ?thesis by blast
  qed
qed

lemma loop_diverges:
  "\<forall>k. full_read stk conn hist k \<Longrightarrow> ConnRead_loop stk conn hist arr = None"
  using loop_returns_stops [of stk conn hist arr] by (cases "ConnRead_loop stk conn hist arr") auto

lemma loop_hist:
  assumes "ConnRead_loop stk0 conn0 hist0 arr0 = Some y0"
  shows "\<exists>k. snd y0 = hist0 @ replicate (Suc k) (E_conn_Read conn0)"
proof (rule ConnRead_loop.raw_induct
    [where P = "\<lambda>stk conn hist arr y. \<exists>k. snd y = hist @ replicate (Suc k) (E_conn_Read conn)",
     OF _ assms])
  fix loop :: "stack \<Rightarrow> conn \<Rightarrow> event list \<Rightarrow> string
      \<Rightarrow> ((string \<times> error option) \<times> event list) option"
    and stk conn hist arr y
  assume IH: "\<And>stk conn hist arr y. loop stk conn hist arr = Some y \<Longrightarrow> \<exists>k. snd y = hist @ replicate (Suc k) (E_conn_Read conn)"
  assume eq: "(case read_buf stk hist conn of
      (bytes, None) \<Rightarrow>
        if length bytes < buf_len
        then Some ((arr @ bytes, None), hist @ [E_conn_Read conn])
        else loop stk conn (hist @ [E_conn_Read conn]) (arr @ bytes)
      | (bytes, Some e) \<Rightarrow>
          Some ((arr, Some (UnderlyingFailure e)), hist @ [E_conn_Read conn])) = Some y"
  show "\<exists>k. snd y = hist @ replicate (Suc k) (E_conn_Read conn)"
  proof (cases "full_read stk conn hist 0")
    case False
    then have "snd y = hist @ replicate (Suc 0) (E_conn_Read conn)"
      using eq by (auto simp: full_read_def nth_read_def read_buf_def buf_len_def
          split: prod.splits option.splits if_splits)
    then show ?thesis by blast
  next
    case True
    then have "loop stk conn (hist @ [E_conn_Read conn]) (arr @ fst (nth_read stk conn hist 0)) = Some y"
      using eq by (auto simp: full_read_def nth_read_def split: prod.splits option.splits if_splits)
    from IH [OF this] obtain k
      where "snd y = (hist @ [E_conn_Read conn]) @ replicate (Suc k) (E_conn_Read conn)"
      by blast
    then have "snd y = hist @ replicate (Suc (Suc k)) (E_conn_Read conn)" by simp
    then show ?thesis by blast
  qed
qed

lemma read_bytes_length:
  "\<forall>j<k. full_read stk conn hist j \<Longrightarrow> length (read_bytes stk conn hist k) = k * buf_len"
  by (induction k) (simp_all add: read_bytes_def full_read_def)

lemma getListener_Some_open:
  "getListener api s = Some l \<Longrightarrow>
   \<not> closed api \<and> (\<exists>m. listeners api = Some m \<and> map_of m s = Some l)"
  by (auto simp: getListener_def split: if_splits option.splits)

text \<open>What \<^verbatim>\<open>ServiceClose\<close> does with the entry of a registered service.\<close>

lemma ServiceClose_close_succeeds:
  "getListener api s = Some l \<Longrightarrow> listener_Close stk hist l = None \<Longrightarrow>
   ServiceClose stk api hist s = Returns (None, api, hist @ [E_listener_Close l])"
  by (simp add: ServiceClose_def)

lemma ServiceClose_close_fails:
  assumes "getListener api s = Some l" and "listener_Close stk hist l = Some e"
  shows "\<exists>api'. ServiceClose stk api hist s =
            Returns (Some (UnderlyingFailure e), api', hist @ [E_listener_Close l]) \<and>
          getListener api' s = None"
proof -
  from getListener_Some_open [OF assms(1)]
  obtain m where o: "\<not> closed api" and m: "listeners api = Some m" by blast
  let ?api' = "api\<lparr>listeners := Some (AList.delete s m)\<rparr>"
  have "setListener api s None = Returns ?api'"
    using o m by (simp add: setListener_def)
  then have "ServiceClose stk api hist s =
      Returns (Some (UnderlyingFailure e), ?api', hist @ [E_listener_Close l])"
    using assms by (simp add: ServiceClose_def)
  moreover have "getListener ?api' s = None"
    using o by (simp add: getListener_def delete_conv)
  ultimately show ?thesis by blast
qed

subsection \<open>The identifiers drawn in a run\<close>

lemma drawn_append: "drawn (a @ b) = drawn a @ drawn b"
  by (simp add: drawn_def)

lemma drawn_Cons: "drawn (e # es) = uuid_of e @ drawn es"
  by (simp add: drawn_def)

lemma drawn_reads: "drawn (replicate n (E_conn_Read c)) = []"
  by (induction n) (simp_all add: drawn_def)

lemma drawn_closes: "drawn (map E_listener_Close xs) = [] \<and> drawn (map E_conn_Close xs) = []"
  by (induction xs) (simp_all add: drawn_def)

lemma setConnection_cases:
  "setConnection api i v = Panics \<or> (\<exists>api'. setConnection api i v = Returns api')"
  by (simp add: setConnection_def split: option.split)

lemma setListener_cases:
  "setListener api i v = Panics \<or> (\<exists>api'. setListener api i v = Returns api')"
  by (simp add: setListener_def split: option.split)

lemma ConnRead_drawn:
  "ConnRead stk api hist i = Returns ((x, e), api', hist') \<Longrightarrow> drawn hist' = drawn hist"
  by (auto simp: ConnRead_def drawn_append drawn_Cons drawn_reads split: option.splits prod.splits
      dest!: loop_hist)

lemma ConnAccept_drawn:
  "ConnAccept stk api hist s = Returns ((x, e), api', hist') \<Longrightarrow>
   drawn hist' = drawn hist @ (case e of None \<Rightarrow> [x] | Some _ \<Rightarrow> [])"
  using setConnection_cases [of api "uuid_New stk (hist @ [E_listener_Accept (the (getListener api s))])"]
  by (auto simp: ConnAccept_def Let_def drawn_def split: option.splits sum.splits outcome.splits)

lemma Query_drawn:
  "Query stk api hist n q = Returns ((x, e), api', hist') \<Longrightarrow>
   drawn hist' = drawn hist @ (case e of None \<Rightarrow> [x] | Some _ \<Rightarrow> [])"
  by (auto simp: Query_def Let_def drawn_def split: option.splits sum.splits outcome.splits if_splits)

lemma QueryName_drawn:
  "QueryName stk api hist n q = Returns ((x, e), api', hist') \<Longrightarrow>
   drawn hist' = drawn hist @ (case e of None \<Rightarrow> [x] | Some _ \<Rightarrow> [])"
  by (auto simp: QueryName_def Let_def drawn_def split: option.splits sum.splits outcome.splits)

lemma wrapE:
  "wrap f out = Returns (r, api', hist') \<Longrightarrow>
   \<exists>x. out = Returns (x, api', hist') \<and> r = f x"
  by (auto simp: wrap_def split: outcome.splits)

lemma step_drawn:
  "step stk api hist c = Returns (r, api', hist') \<Longrightarrow>
   drawn hist' = drawn hist @ issued_id c r"
proof (cases c)
  case (Call_ConnAccept s)
  then show "step stk api hist c = Returns (r, api', hist') \<Longrightarrow> ?thesis"
    by (auto dest!: wrapE ConnAccept_drawn split: option.splits)
next
  case (Call_Query n q)
  then show "step stk api hist c = Returns (r, api', hist') \<Longrightarrow> ?thesis"
    by (auto dest!: wrapE Query_drawn split: option.splits)
next
  case (Call_QueryName n q)
  then show "step stk api hist c = Returns (r, api', hist') \<Longrightarrow> ?thesis"
    by (auto dest!: wrapE QueryName_drawn split: option.splits)
next
  case (Call_ConnRead i)
  then show "step stk api hist c = Returns (r, api', hist') \<Longrightarrow> ?thesis"
    by (auto dest!: wrapE ConnRead_drawn)
next
  case (Call_ServiceRegister s)
  then show "step stk api hist c = Returns (r, api', hist') \<Longrightarrow> ?thesis"
    by (auto simp: ServiceRegister_def Let_def drawn_def dest!: wrapE split: sum.splits outcome.splits)
next
  case (Call_ServiceClose s)
  then show "step stk api hist c = Returns (r, api', hist') \<Longrightarrow> ?thesis"
    by (auto simp: ServiceClose_def Let_def drawn_def dest!: wrapE split: option.splits outcome.splits)
next
  case (Call_ConnClose s)
  then show "step stk api hist c = Returns (r, api', hist') \<Longrightarrow> ?thesis"
    by (auto simp: ConnClose_def Let_def drawn_def dest!: wrapE split: option.splits outcome.splits)
next
  case (Call_ConnWrite s d)
  then show "step stk api hist c = Returns (r, api', hist') \<Longrightarrow> ?thesis"
    by (auto simp: ConnWrite_def Let_def drawn_def dest!: wrapE split: option.splits outcome.splits)
next
  case (Call_Resolve s)
  then show "step stk api hist c = Returns (r, api', hist') \<Longrightarrow> ?thesis"
    by (auto simp: Resolve_def Let_def drawn_def dest!: wrapE split: sum.splits)
next
  case (Call_NodeInfo s)
  then show "step stk api hist c = Returns (r, api', hist') \<Longrightarrow> ?thesis"
    by (auto simp: NodeInfo_def Let_def drawn_def dest!: wrapE split: sum.splits)
next
  case Call_Log
  then show "step stk api hist c = Returns (r, api', hist') \<Longrightarrow> ?thesis"
    by (auto simp: Log_def drawn_def)
next
  case Call_LogArr
  then show "step stk api hist c = Returns (r, api', hist') \<Longrightarrow> ?thesis"
    by (auto simp: LogArr_def drawn_def)
next
  case (Call_Sleep d)
  then show "step stk api hist c = Returns (r, api', hist') \<Longrightarrow> ?thesis"
    by (auto simp: Sleep_def drawn_def)
next
  case Call_CloseAppHostFlatAdapter
  then show "step stk api hist c = Returns (r, api', hist') \<Longrightarrow> ?thesis"
    by (auto simp: CloseAppHostFlatAdapter_def Let_def close_all_eq drawn_append drawn_closes)
       (simp add: drawn_def)
qed

lemma run_drawn:
  "run stk api hist calls = Returns (rs, api', hist') \<Longrightarrow>
   drawn hist' = drawn hist @ issued calls rs \<and> length rs = length calls"
proof (induction calls arbitrary: api hist rs)
  case Nil
  then show ?case by (simp add: issued_def)
next
  case (Cons c cs)
  from Cons.prems obtain r api1 hist1 rs1 where
    s: "step stk api hist c = Returns (r, api1, hist1)" and
    t: "run stk api1 hist1 cs = Returns (rs1, api', hist')" and
    rs: "rs = r # rs1"
    by (auto split: outcome.splits)
  from Cons.IH [OF t] step_drawn [OF s] rs show ?case
    by (simp add: issued_def)
qed

lemma scripted_read:
  "conn_Read (scripted lc cc rds) h c =
     (let i = length (filter (\<lambda>e. e = E_conn_Read c) h)
      in if i < length rds then rds ! i else ('''', Some ''EOF''))"
  by (simp add: scripted_def)








subsection \<open>Shutdown\<close>

lemma CloseAppHostFlatAdapter_eq:
  "CloseAppHostFlatAdapter stk api hist =
     (api_shut,
      hist @ map E_listener_Close (range_values (listeners api))
           @ map E_conn_Close (range_values (connections api)) @ [E_log_Println])"
  by (simp add: CloseAppHostFlatAdapter_def Let_def close_all_eq api_shut_def)

lemma step_shut:
  "\<exists>r hist'. step stk api_shut hist c = Returns (r, api_shut, hist')"
  by (cases c)
     (simp_all add: Log_def LogArr_def Sleep_def wrap_def ServiceRegister_def ServiceClose_def
        ConnAccept_def ConnClose_def ConnWrite_def ConnRead_def Query_def QueryName_def
        Resolve_def NodeInfo_def CloseAppHostFlatAdapter_eq Let_def range_values_def
        getListener_def getConnection_def setListener_def setConnection_def api_shut_def
        split: sum.split prod.split)

lemma run_shut:
  "\<exists>rs hist'. run stk api_shut hist cs = Returns (rs, api_shut, hist')"
proof (induction cs arbitrary: hist)
  case Nil
  then show ?case by simp
next
  case (Cons c cs)
  from step_shut [of stk hist c]
  obtain r hist1 where s: "step stk api_shut hist c = Returns (r, api_shut, hist1)"
    by blast
  from Cons.IH [of hist1]
  obtain rs hist2 where "run stk api_shut hist1 cs = Returns (rs, api_shut, hist2)"
    by blast
  with s show ?case by simp
qed

section \<open>The claims\<close>

text \<open>
  C1. \<^verbatim>\<open>ServiceClose\<close> should remove the listener's entry only when the underlying
  close succeeds, and keep it when the close fails. The code tests \<^verbatim>\<open>err != nil\<close> where
  \<^verbatim>\<open>ConnClose\<close> tests \<^verbatim>\<open>err == nil\<close>: on the adapter \<open>api_open\<close>, a close of
  \<open>echo\<close> that succeeds leaves the entry in the registry, and a close that fails removes
  it.
\<close>

theorem ServiceClose_removal_inverted:
  "ServiceClose (scripted None None []) api_open [] ''echo'' =
     Returns (None, api_open, [E_listener_Close 7]) \<and>
   getListener api_open ''echo'' = Some 7 \<and>
   ServiceClose (scripted (Some ''boom'') None []) api_open [] ''echo'' =
     Returns (Some (UnderlyingFailure ''boom''), api_open\<lparr>listeners := Some []\<rparr>,
              [E_listener_Close 7]) \<and>
   getListener (api_open\<lparr>listeners := Some []\<rparr>) ''echo'' = None"
  by (simp add: ServiceClose_def getListener_def setListener_def api_open_def scripted_def)

text \<open>
  Against C2 as it is stated: \<^verbatim>\<open>ConnClose\<close> does not remove the entry when the
  stream's close reports an error. The call returns that error, the entry is still
  found, and a write on the identifier goes to the stream.
\<close>

theorem ConnClose_failed_close_keeps_entry:
  "ConnClose (scripted None (Some ''boom'') []) api_open [] ''c1'' =
     Returns (Some (UnderlyingFailure ''boom''), api_open, [E_conn_Close 5]) \<and>
   getConnection api_open ''c1'' = Some 5 \<and>
   ConnWrite (scripted None (Some ''boom'') []) api_open [E_conn_Close 5] ''c1'' ''x'' =
     Returns (None, api_open, [E_conn_Close 5, E_conn_Write 5 ''x''])"
  by (simp add: ConnClose_def ConnWrite_def getConnection_def api_open_def scripted_def)

text \<open>
  C2, as the code has it. For a live connection identifier, \<^verbatim>\<open>ConnClose\<close> removes the
  entry when the stream's close returns no error, and leaves every other entry alone;
  afterwards read, write and close on the identifier fail with \<open>NotFound\<close> without a
  call to the stream. When the close reports an error, \<^verbatim>\<open>ConnClose\<close> returns it and
  the adapter is unchanged, so the entry stays.
\<close>

theorem ConnClose_removes_on_success:
  assumes "getConnection api i = Some c"
  shows "(conn_Close stk hist c = None \<longrightarrow>
           (\<exists>api'. ConnClose stk api hist i = Returns (None, api', hist @ [E_conn_Close c]) \<and>
              getConnection api' i = None \<and>
              (\<forall>j. j \<noteq> i \<longrightarrow> getConnection api' j = getConnection api j) \<and>
              (\<forall>h. ConnRead stk api' h i =
                 Returns (('''', Some (NotFound (''[ConnRead] not found connection with id: '' @ i))),
                          api', h)) \<and>
              (\<forall>h d. ConnWrite stk api' h i d =
                 Returns (Some (NotFound (''[ConnWrite] not found connection with id: '' @ i)),
                          api', h)) \<and>
              (\<forall>h. ConnClose stk api' h i =
                 Returns (Some (NotFound (''[ConnClose] not found connection with id: '' @ i)),
                          api', h)))) \<and>
         (\<forall>e. conn_Close stk hist c = Some e \<longrightarrow>
            ConnClose stk api hist i =
              Returns (Some (UnderlyingFailure e), api, hist @ [E_conn_Close c]))"
proof (intro conjI impI allI)
  assume ok: "conn_Close stk hist c = None"
  from setConnection_delete [OF assms] obtain api' where
    s: "setConnection api i None = Returns api'" and g: "getConnection api' i = None" and
    o: "\<forall>j. j \<noteq> i \<longrightarrow> getConnection api' j = getConnection api j"
    by blast
  have "ConnClose stk api hist i = Returns (None, api', hist @ [E_conn_Close c])"
    using assms ok s by (simp add: ConnClose_def)
  with g o show "\<exists>api'. ConnClose stk api hist i = Returns (None, api', hist @ [E_conn_Close c]) \<and>
              getConnection api' i = None \<and>
              (\<forall>j. j \<noteq> i \<longrightarrow> getConnection api' j = getConnection api j) \<and>
              (\<forall>h. ConnRead stk api' h i =
                 Returns (('''', Some (NotFound (''[ConnRead] not found connection with id: '' @ i))),
                          api', h)) \<and>
              (\<forall>h d. ConnWrite stk api' h i d =
                 Returns (Some (NotFound (''[ConnWrite] not found connection with id: '' @ i)),
                          api', h)) \<and>
              (\<forall>h. ConnClose stk api' h i =
                 Returns (Some (NotFound (''[ConnClose] not found connection with id: '' @ i)),
                          api', h))"
    by (intro exI [of _ api'])
       (simp add: ConnRead_NotFound ConnWrite_NotFound ConnClose_NotFound)
next
  fix e
  assume "conn_Close stk hist c = Some e"
  then show "ConnClose stk api hist i =
      Returns (Some (UnderlyingFailure e), api, hist @ [E_conn_Close c])"
    using assms by (simp add: ConnClose_def)
qed

theorem ConnClose_removes_on_success_witness:
  "getConnection api_open ''c1'' = Some 5 \<and>
   ConnClose (scripted None None []) api_open [] ''c1'' =
     Returns (None, api_open\<lparr>connections := Some [(''c2'', 6)]\<rparr>, [E_conn_Close 5]) \<and>
   ConnRead (scripted None None []) (api_open\<lparr>connections := Some [(''c2'', 6)]\<rparr>)
       [E_conn_Close 5] ''c1'' =
     Returns (('''', Some (NotFound ''[ConnRead] not found connection with id: c1'')),
              api_open\<lparr>connections := Some [(''c2'', 6)]\<rparr>, [E_conn_Close 5]) \<and>
   ConnClose (scripted None (Some ''boom'') []) api_open [] ''c1'' =
     Returns (Some (UnderlyingFailure ''boom''), api_open, [E_conn_Close 5])"
proof -
  have g: "getConnection api_open ''c1'' = Some 5"
    by (simp add: getConnection_def api_open_def)
  have d: "setConnection api_open ''c1'' None =
      Returns (api_open\<lparr>connections := Some [(''c2'', 6)]\<rparr>)"
    by (simp add: setConnection_def api_open_def)
  have ok: "conn_Close (scripted None None []) [] 5 = None"
    by (simp add: scripted_def)
  have bad: "conn_Close (scripted None (Some ''boom'') []) [] 5 = Some ''boom''"
    by (simp add: scripted_def)
  from ConnClose_removes_on_success [OF g, of "scripted None None []" "[]"] ok
  obtain api' where
    c: "ConnClose (scripted None None []) api_open [] ''c1'' = Returns (None, api', [E_conn_Close 5])"
    and r: "\<forall>h. ConnRead (scripted None None []) api' h ''c1'' =
        Returns (('''', Some (NotFound (''[ConnRead] not found connection with id: '' @ ''c1''))), api', h)"
    by auto
  have "api' = api_open\<lparr>connections := Some [(''c2'', 6)]\<rparr>"
    using c g ok d by (simp add: ConnClose_def)
  moreover from ConnClose_removes_on_success [OF g, of "scripted None (Some ''boom'') []" "[]"] bad
  have "ConnClose (scripted None (Some ''boom'') []) api_open [] ''c1'' =
     Returns (Some (UnderlyingFailure ''boom''), api_open, [E_conn_Close 5])"
    by simp
  ultimately show ?thesis using g c r by simp
qed

text \<open>
  C3. For a live connection identifier and any answers of the stream, \<^verbatim>\<open>ConnRead\<close>
  reads into the buffer of \<open>buf_len\<close> bytes and appends what it read, one read after
  the other. If the reads \<open>0\<close> to \<open>k - 1\<close> fill the buffer without an error and read
  \<open>k\<close> is shorter than the buffer, the call issues exactly \<open>k + 1\<close> reads and returns
  the bytes of all of them with a nil error. If read \<open>k\<close> reports an error instead, the
  call issues exactly \<open>k + 1\<close> reads and returns that error with the bytes of the
  reads before it. A read that fills the
  buffer is always followed by another read: when every read fills the buffer, the call
  never returns.
\<close>

theorem ConnRead_accumulates_until_short_read_or_error:
  assumes "getConnection api i = Some conn"
  shows "(\<forall>k bytes. (\<forall>j<k. full_read stk conn hist j) \<and>
            nth_read stk conn hist k = (bytes, None) \<and> length bytes < buf_len \<longrightarrow>
            ConnRead stk api hist i =
              Returns ((read_bytes stk conn hist k @ bytes, None), api,
                       hist @ replicate (Suc k) (E_conn_Read conn))) \<and>
         (\<forall>k bytes e. (\<forall>j<k. full_read stk conn hist j) \<and>
            nth_read stk conn hist k = (bytes, Some e) \<longrightarrow>
            ConnRead stk api hist i =
              Returns ((read_bytes stk conn hist k, Some (UnderlyingFailure e)), api,
                       hist @ replicate (Suc k) (E_conn_Read conn))) \<and>
         ((\<forall>k. full_read stk conn hist k) \<longrightarrow> ConnRead stk api hist i = Diverges)"
proof (intro conjI allI impI)
  fix k bytes
  assume "(\<forall>j<k. full_read stk conn hist j) \<and>
            nth_read stk conn hist k = (bytes, None) \<and> length bytes < buf_len"
  then have "ConnRead_loop stk conn hist [] =
      Some (([] @ read_bytes stk conn hist k @ bytes, None),
            hist @ replicate (Suc k) (E_conn_Read conn))"
    by (intro loop_short) simp_all
  then show "ConnRead stk api hist i =
      Returns ((read_bytes stk conn hist k @ bytes, None), api,
               hist @ replicate (Suc k) (E_conn_Read conn))"
    using assms by (simp add: ConnRead_def)
next
  fix k bytes e
  assume "(\<forall>j<k. full_read stk conn hist j) \<and> nth_read stk conn hist k = (bytes, Some e)"
  then have "ConnRead_loop stk conn hist [] =
      Some (([] @ read_bytes stk conn hist k, Some (UnderlyingFailure e)),
            hist @ replicate (Suc k) (E_conn_Read conn))"
    by (intro loop_error) simp_all
  then show "ConnRead stk api hist i =
      Returns ((read_bytes stk conn hist k, Some (UnderlyingFailure e)), api,
               hist @ replicate (Suc k) (E_conn_Read conn))"
    using assms by (simp add: ConnRead_def)
next
  assume "\<forall>k. full_read stk conn hist k"
  then have "ConnRead_loop stk conn hist [] = None"
    by (rule loop_diverges)
  then show "ConnRead stk api hist i = Diverges"
    using assms by (simp add: ConnRead_def)
qed

theorem ConnRead_accumulates_until_short_read_or_error_witness:
  "getConnection api_open ''c1'' = Some 5 \<and>
   ConnRead (scripted None None [(replicate 4096 CHR ''a'', None), (''hi'', None)])
       api_open [] ''c1'' =
     Returns ((replicate 4096 CHR ''a'' @ ''hi'', None), api_open,
              [E_conn_Read 5, E_conn_Read 5]) \<and>
   ConnRead (scripted None None [(replicate 4096 CHR ''a'', None)]) api_open [] ''c1'' =
     Returns ((replicate 4096 CHR ''a'', Some (UnderlyingFailure ''EOF'')), api_open,
              [E_conn_Read 5, E_conn_Read 5]) \<and>
   ConnRead ((scripted None None [])\<lparr>conn_Read := \<lambda>h c. (replicate 4096 CHR ''a'', None)\<rparr>)
       api_open [] ''c1'' = Diverges"
proof -
  let ?S = "scripted None None [(replicate 4096 CHR ''a'', None), (''hi'', None)]"
  let ?E = "scripted None None [(replicate 4096 CHR ''a'', None)]"
  let ?D = "(scripted None None [])\<lparr>conn_Read := \<lambda>h c. (replicate 4096 CHR ''a'', None)\<rparr>"
  have g: "getConnection api_open ''c1'' = Some 5"
    by (simp add: getConnection_def api_open_def)
  have f: "\<forall>j<Suc 0. full_read ?S 5 [] j"
    by (simp add: full_read_def nth_read_def read_buf_def scripted_read buf_len_def)
  have n: "nth_read ?S 5 [] (Suc 0) = (''hi'', None)"
    by (simp add: nth_read_def read_buf_def scripted_read buf_len_def)
  have l: "length ''hi'' < buf_len"
    by (simp add: buf_len_def)
  have rb: "read_bytes ?S 5 [] (Suc 0) = replicate 4096 CHR ''a''"
    by (simp add: read_bytes_def nth_read_def read_buf_def scripted_read buf_len_def)
  have fe: "\<forall>j<Suc 0. full_read ?E 5 [] j"
    by (simp add: full_read_def nth_read_def read_buf_def scripted_read buf_len_def)
  have ne: "nth_read ?E 5 [] (Suc 0) = ('''', Some ''EOF'')"
    by (simp add: nth_read_def read_buf_def scripted_read buf_len_def)
  have rbe: "read_bytes ?E 5 [] (Suc 0) = replicate 4096 CHR ''a''"
    by (simp add: read_bytes_def nth_read_def read_buf_def scripted_read buf_len_def)
  have fd: "\<forall>k. full_read ?D 5 [] k"
    by (simp add: full_read_def nth_read_def read_buf_def buf_len_def)
  have "ConnRead ?S api_open [] ''c1'' =
      Returns ((read_bytes ?S 5 [] (Suc 0) @ ''hi'', None), api_open,
               [] @ replicate (Suc (Suc 0)) (E_conn_Read 5))"
    using ConnRead_accumulates_until_short_read_or_error [OF g, of ?S "[]"] f n l by blast
  moreover have "ConnRead ?E api_open [] ''c1'' =
      Returns ((read_bytes ?E 5 [] (Suc 0), Some (UnderlyingFailure ''EOF'')), api_open,
               [] @ replicate (Suc (Suc 0)) (E_conn_Read 5))"
    using ConnRead_accumulates_until_short_read_or_error [OF g, of ?E "[]"] fe ne by blast
  moreover have "ConnRead ?D api_open [] ''c1'' = Diverges"
    using ConnRead_accumulates_until_short_read_or_error [OF g, of ?D "[]"] fd by blast
  ultimately show ?thesis using g rb rbe by simp
qed

text \<open>
  C9. For a live connection identifier, when the reads \<open>0\<close> to \<open>k - 1\<close> of
  \<^verbatim>\<open>ConnRead\<close> succeed (each fills the buffer, or the loop would have stopped) and read
  \<open>k\<close> reports an error, the call returns the error together with the \<open>k * buf_len\<close>
  bytes accumulated by the reads before it as its data result.
\<close>

theorem ConnRead_error_returns_accumulated_bytes:
  assumes "getConnection api i = Some conn"
    and "\<forall>j<k. full_read stk conn hist j"
    and "nth_read stk conn hist k = (bytes, Some e)"
  shows "ConnRead stk api hist i =
           Returns ((read_bytes stk conn hist k, Some (UnderlyingFailure e)), api,
                    hist @ replicate (Suc k) (E_conn_Read conn)) \<and>
         length (read_bytes stk conn hist k) = k * buf_len"
proof -
  have "ConnRead_loop stk conn hist [] =
      Some (([] @ read_bytes stk conn hist k, Some (UnderlyingFailure e)),
            hist @ replicate (Suc k) (E_conn_Read conn))"
    using assms(2,3) by (rule loop_error)
  then show ?thesis
    using assms(1) read_bytes_length [OF assms(2)] by (simp add: ConnRead_def)
qed

theorem ConnRead_error_returns_accumulated_bytes_witness:
  "getConnection api_open ''c1'' = Some 5 \<and>
   ConnRead (scripted None None [(replicate 4096 CHR ''a'', None), (''lost'', Some ''reset'')])
       api_open [] ''c1'' =
     Returns ((replicate 4096 CHR ''a'', Some (UnderlyingFailure ''reset'')), api_open,
              [E_conn_Read 5, E_conn_Read 5])"
proof -
  let ?S = "scripted None None [(replicate 4096 CHR ''a'', None), (''lost'', Some ''reset'')]"
  have g: "getConnection api_open ''c1'' = Some 5"
    by (simp add: getConnection_def api_open_def)
  have f: "\<forall>j<Suc 0. full_read ?S 5 [] j"
    by (simp add: full_read_def nth_read_def read_buf_def scripted_read buf_len_def)
  have n: "nth_read ?S 5 [] (Suc 0) = (''lost'', Some ''reset'')"
    by (simp add: nth_read_def read_buf_def scripted_read buf_len_def)
  have rb: "read_bytes ?S 5 [] (Suc 0) = replicate 4096 CHR ''a''"
    by (simp add: read_bytes_def nth_read_def read_buf_def scripted_read buf_len_def)
  have "ConnRead ?S api_open [] ''c1'' =
      Returns ((read_bytes ?S 5 [] (Suc 0), Some (UnderlyingFailure ''reset'')), api_open,
               [] @ replicate (Suc (Suc 0)) (E_conn_Read 5))"
    using ConnRead_error_returns_accumulated_bytes [OF g f n] by (rule conjunct1)
  with rb g show ?thesis
    by simp
qed

text \<open>
  C4. From an adapter whose shutdown flag is set, every sequence of calls returns and
  ends in an adapter whose flag is still set; there every \<^verbatim>\<open>getListener\<close> and
  \<^verbatim>\<open>getConnection\<close> finds nothing, and every \<^verbatim>\<open>setListener\<close> and
  \<^verbatim>\<open>setConnection\<close> returns the adapter as it was.
\<close>

theorem registry_inert_after_shutdown:
  assumes "closed api"
  shows "\<exists>rs api' hist'. run stk api hist calls = Returns (rs, api', hist') \<and> closed api' \<and>
           (\<forall>s. getListener api' s = None) \<and> (\<forall>c. getConnection api' c = None) \<and>
           (\<forall>s l. setListener api' s l = Returns api') \<and>
           (\<forall>c v. setConnection api' c v = Returns api')"
proof -
  from run_closed [OF assms, of stk hist calls] obtain rs api' hist'
    where "run stk api hist calls = Returns (rs, api', hist')" and "closed api'"
    by blast
  then show ?thesis
    by (simp add: getListener_closed getConnection_closed setListener_closed
        setConnection_closed)
qed

theorem registry_inert_after_shutdown_witness:
  "closed api_shut \<and>
   run (scripted None None []) api_shut []
       [Call_ServiceRegister ''echo'', Call_ConnAccept ''echo'', Call_QueryName ''n'' ''q''] =
     Returns ([R_error None,
               R_string '''' (Some (NotFound ''[ConnAccept] not listening on port: echo'')),
               R_string ''u'' None],
              api_shut,
              [E_astral_Register ''echo'', E_astral_QueryName ''n'' ''q'', E_uuid_New ''u'']) \<and>
   getListener api_shut ''echo'' = None \<and> getConnection api_shut ''u'' = None \<and>
   setListener api_shut ''echo'' (Some 1) = Returns api_shut \<and>
   setConnection api_shut ''u'' (Some 2) = Returns api_shut"
proof -
  let ?calls = "[Call_ServiceRegister ''echo'', Call_ConnAccept ''echo'', Call_QueryName ''n'' ''q'']"
  have c: "closed api_shut" by (simp add: api_shut_def)
  from registry_inert_after_shutdown [OF c, of "scripted None None []" "[]" ?calls]
  obtain rs api' hist' where
    r: "run (scripted None None []) api_shut [] ?calls = Returns (rs, api', hist')" and
    g: "\<forall>s. getListener api' s = None" "\<forall>c. getConnection api' c = None"
       "\<forall>s l. setListener api' s l = Returns api'" "\<forall>c v. setConnection api' c v = Returns api'"
    by blast
  have e: "run (scripted None None []) api_shut [] ?calls =
     Returns ([R_error None,
               R_string '''' (Some (NotFound ''[ConnAccept] not listening on port: echo'')),
               R_string ''u'' None],
              api_shut,
              [E_astral_Register ''echo'', E_astral_QueryName ''n'' ''q'', E_uuid_New ''u''])"
    by code_simp
  with r have "api' = api_shut" by simp
  with g e c show ?thesis by simp
qed

text \<open>
  C10. \<^verbatim>\<open>CloseAppHostFlatAdapter\<close> leaves both maps nil and the flag set. In that
  adapter \<^verbatim>\<open>setListener\<close> and \<^verbatim>\<open>setConnection\<close> return at the flag check with the
  adapter as it was, for a nil and for a non-nil value alike; with the flag cleared the
  same write of a non-nil value would be an assignment to an entry of a nil map, which
  panics. Every sequence of public calls after the shutdown returns, so none of them
  panics, and the adapter stays as the shutdown left it.
\<close>

theorem no_nil_map_write_after_shutdown:
  assumes "CloseAppHostFlatAdapter stk0 api0 hist0 = (api, hist)"
  shows "closed api \<and> listeners api = None \<and> connections api = None \<and>
         setListener api s l = Returns api \<and> setConnection api c v = Returns api \<and>
         setListener (api\<lparr>closed := False\<rparr>) s (Some x) = Panics \<and>
         setConnection (api\<lparr>closed := False\<rparr>) c (Some y) = Panics \<and>
         (\<exists>rs hist'. run stk api hist calls = Returns (rs, api, hist'))"
proof -
  from assms have a: "api = api_shut"
    by (simp add: CloseAppHostFlatAdapter_eq)
  have "closed api \<and> listeners api = None \<and> connections api = None \<and>
         setListener api s l = Returns api \<and> setConnection api c v = Returns api \<and>
         setListener (api\<lparr>closed := False\<rparr>) s (Some x) = Panics \<and>
         setConnection (api\<lparr>closed := False\<rparr>) c (Some y) = Panics"
    unfolding a by (simp add: api_shut_def setListener_def setConnection_def)
  moreover have "\<exists>rs hist'. run stk api hist calls = Returns (rs, api, hist')"
    unfolding a by (rule run_shut)
  ultimately show ?thesis by blast
qed

theorem no_nil_map_write_after_shutdown_witness:
  "CloseAppHostFlatAdapter (scripted None None []) api_open [] =
     (api_shut, [E_listener_Close 7, E_conn_Close 5, E_conn_Close 6, E_log_Println]) \<and>
   setListener api_shut ''echo'' (Some 1) = Returns api_shut \<and>
   setConnection api_shut ''uuu'' (Some 2) = Returns api_shut \<and>
   setListener (api_shut\<lparr>closed := False\<rparr>) ''echo'' (Some 1) = Panics \<and>
   setConnection (api_shut\<lparr>closed := False\<rparr>) ''uuu'' (Some 2) = Panics \<and>
   (\<exists>rs hist'. run (scripted None None []) api_shut
        [E_listener_Close 7, E_conn_Close 5, E_conn_Close 6, E_log_Println]
        [Call_ServiceRegister ''echo'', Call_Query '''' ''q'', Call_CloseAppHostFlatAdapter,
         Call_QueryName ''n'' ''q''] = Returns (rs, api_shut, hist'))"
proof -
  have h: "CloseAppHostFlatAdapter (scripted None None []) api_open [] =
     (api_shut, [E_listener_Close 7, E_conn_Close 5, E_conn_Close 6, E_log_Println])"
    by code_simp
  from no_nil_map_write_after_shutdown [OF h] h show ?thesis
    by blast
qed




text \<open>
  C6. For a connection identifier that \<^verbatim>\<open>getConnection\<close> does not find (never issued,
  removed, or the adapter shut down), \<^verbatim>\<open>ConnRead\<close>, \<^verbatim>\<open>ConnWrite\<close> and \<^verbatim>\<open>ConnClose\<close>
  each return a \<open>NotFound\<close> error, issue no call to a stream or to anything else
  outside, and leave the adapter unchanged.
\<close>

theorem no_live_entry_NotFound:
  assumes "getConnection api i = None"
  shows "ConnRead stk api hist i =
           Returns (('''', Some (NotFound (''[ConnRead] not found connection with id: '' @ i))),
                    api, hist) \<and>
         ConnWrite stk api hist i d =
           Returns (Some (NotFound (''[ConnWrite] not found connection with id: '' @ i)),
                    api, hist) \<and>
         ConnClose stk api hist i =
           Returns (Some (NotFound (''[ConnClose] not found connection with id: '' @ i)),
                    api, hist)"
  using assms by (simp add: ConnRead_NotFound ConnWrite_NotFound ConnClose_NotFound)

theorem no_live_entry_NotFound_witness:
  "getConnection api_open ''zz'' = None \<and>
   ConnRead (scripted None None [(''hi'', None)]) api_open [] ''zz'' =
     Returns (('''', Some (NotFound ''[ConnRead] not found connection with id: zz'')),
              api_open, []) \<and>
   ConnWrite (scripted None None [(''hi'', None)]) api_open [] ''zz'' ''data'' =
     Returns (Some (NotFound ''[ConnWrite] not found connection with id: zz''), api_open, []) \<and>
   ConnClose (scripted None None [(''hi'', None)]) api_open [] ''zz'' =
     Returns (Some (NotFound ''[ConnClose] not found connection with id: zz''), api_open, [])"
proof -
  have g: "getConnection api_open ''zz'' = None"
    by (simp add: getConnection_def api_open_def)
  from no_live_entry_NotFound [OF g, of "scripted None None [(''hi'', None)]" "[]" "''data''"] g
  show ?thesis by simp
qed

text \<open>
  C7. For a non-empty identity string that \<^verbatim>\<open>id.ParsePublicKeyHex\<close> rejects, \<^verbatim>\<open>Query\<close>
  returns the parse error and an empty identifier, issues no outside call and leaves the
  adapter unchanged. For the empty identity string the parser plays no part: the result
  is the same with any parser, and the first outside call is the query to the zero
  identity.
\<close>

theorem Query_malformed_identity:
  "(identity \<noteq> [] \<and> id_ParsePublicKeyHex stk identity = Inl e \<longrightarrow>
      Query stk api hist identity query =
        Returns (('''', Some (MalformedInput e)), api, hist)) \<and>
   Query (stk\<lparr>id_ParsePublicKeyHex := p\<rparr>) api hist [] query = Query stk api hist [] query \<and>
   (Query stk api hist [] query = Returns (r, api', hist') \<longrightarrow>
      take (Suc (length hist)) hist' = hist @ [E_astral_Query Identity_zero query])"
proof (intro conjI impI)
  assume "identity \<noteq> [] \<and> id_ParsePublicKeyHex stk identity = Inl e"
  then show "Query stk api hist identity query =
      Returns (('''', Some (MalformedInput e)), api, hist)"
    by (simp add: Query_def)
next
  show "Query (stk\<lparr>id_ParsePublicKeyHex := p\<rparr>) api hist [] query = Query stk api hist [] query"
    by (simp add: Query_def Let_def split: sum.split)
next
  assume "Query stk api hist [] query = Returns (r, api', hist')"
  then show "take (Suc (length hist)) hist' = hist @ [E_astral_Query Identity_zero query]"
    by (auto simp: Query_def Let_def split: sum.splits outcome.splits)
qed

theorem Query_malformed_identity_witness:
  "''zz'' \<noteq> [] \<and> id_ParsePublicKeyHex (scripted None None []) ''zz'' = Inl ''bad hex'' \<and>
   Query (scripted None None []) api_open [] ''zz'' ''q'' =
     Returns (('''', Some (MalformedInput ''bad hex'')), api_open, []) \<and>
   Query (scripted None None []) api_open [] '''' ''ping'' =
     Returns (('''', Some (UnderlyingFailure ''unreachable'')), api_open,
              [E_astral_Query Identity_zero ''ping'']) \<and>
   take (Suc (length ([] :: event list))) [E_astral_Query Identity_zero ''ping''] =
     [] @ [E_astral_Query Identity_zero ''ping'']"
proof -
  have p: "''zz'' \<noteq> [] \<and> id_ParsePublicKeyHex (scripted None None []) ''zz'' = Inl ''bad hex''"
    by (simp add: scripted_def)
  have q: "Query (scripted None None []) api_open [] '''' ''ping'' =
     Returns (('''', Some (UnderlyingFailure ''unreachable'')), api_open,
              [E_astral_Query Identity_zero ''ping''])"
    by (simp add: Query_def Let_def scripted_def)
  from Query_malformed_identity
    [of "''zz''" "scripted None None []" "''bad hex''" api_open "[]" "''q''"] p
  have a: "Query (scripted None None []) api_open [] ''zz'' ''q'' =
     Returns (('''', Some (MalformedInput ''bad hex'')), api_open, [])"
    by blast
  from Query_malformed_identity
    [of _ "scripted None None []" _ api_open "[]" "''ping''"
        _ "('''', Some (UnderlyingFailure ''unreachable''))" api_open
        "[E_astral_Query Identity_zero ''ping'']"] q
  have b: "take (Suc (length ([] :: event list))) [E_astral_Query Identity_zero ''ping''] =
     [] @ [E_astral_Query Identity_zero ''ping'']"
    by blast
  from p a q b show ?thesis by blast
qed

text \<open>
  C8. \<^verbatim>\<open>CloseAppHostFlatAdapter\<close> always returns. The outside calls it issues are
  exactly one \<^verbatim>\<open>Close\<close> for every listener and every connection stored in the maps and
  the log line; in particular every listener and connection a lookup finds before the
  shutdown is closed. What the stack answers to the closes makes no difference. After
  it the flag is set and both maps are nil, and read, write and close on any connection
  identifier fail with \<open>NotFound\<close>.
\<close>

theorem shutdown_closes_everything:
  assumes "CloseAppHostFlatAdapter stk api hist = (api', hist')"
  shows "closed api' \<and> listeners api' = None \<and> connections api' = None \<and>
         take (length hist) hist' = hist \<and>
         set (drop (length hist) hist') =
           E_listener_Close ` set (range_values (listeners api)) \<union>
           E_conn_Close ` set (range_values (connections api)) \<union> {E_log_Println} \<and>
         (\<forall>s l. getListener api s = Some l \<longrightarrow>
            E_listener_Close l \<in> set (drop (length hist) hist')) \<and>
         (\<forall>i c. getConnection api i = Some c \<longrightarrow>
            E_conn_Close c \<in> set (drop (length hist) hist')) \<and>
         CloseAppHostFlatAdapter stk2 api hist = (api', hist') \<and>
         (\<forall>h i. ConnRead stk api' h i =
            Returns (('''', Some (NotFound (''[ConnRead] not found connection with id: '' @ i))),
                     api', h)) \<and>
         (\<forall>h i d. ConnWrite stk api' h i d =
            Returns (Some (NotFound (''[ConnWrite] not found connection with id: '' @ i)),
                     api', h)) \<and>
         (\<forall>h i. ConnClose stk api' h i =
            Returns (Some (NotFound (''[ConnClose] not found connection with id: '' @ i)),
                     api', h))"
proof -
  from assms have a: "api' = api_shut" and
    h: "hist' = hist @ map E_listener_Close (range_values (listeners api))
           @ map E_conn_Close (range_values (connections api)) @ [E_log_Println]"
    by (simp_all add: CloseAppHostFlatAdapter_eq)
  have c: "closed api' \<and> listeners api' = None \<and> connections api' = None"
    by (simp add: a api_shut_def)
  have t: "take (length hist) hist' = hist" by (simp add: h)
  have s: "set (drop (length hist) hist') =
           E_listener_Close ` set (range_values (listeners api)) \<union>
           E_conn_Close ` set (range_values (connections api)) \<union> {E_log_Println}"
    by (auto simp: h)
  have l: "\<forall>s l. getListener api s = Some l \<longrightarrow>
      E_listener_Close l \<in> set (drop (length hist) hist')"
    unfolding s
    by (auto simp: range_values_def image_iff dest!: getListener_Some_open map_of_SomeD)
       (metis snd_conv)
  have k: "\<forall>i c. getConnection api i = Some c \<longrightarrow>
      E_conn_Close c \<in> set (drop (length hist) hist')"
    unfolding s
    by (auto simp: range_values_def image_iff dest!: getConnection_Some_open map_of_SomeD)
       (metis snd_conv)
  have e: "CloseAppHostFlatAdapter stk2 api hist = (api', hist')"
    by (simp add: CloseAppHostFlatAdapter_eq a h)
  have g: "\<And>i. getConnection api' i = None"
    using c by (simp add: getConnection_closed)
  show ?thesis
    using c t s l k e by (simp add: ConnRead_NotFound ConnWrite_NotFound ConnClose_NotFound g)
qed

theorem shutdown_closes_everything_witness:
  "CloseAppHostFlatAdapter (scripted (Some ''boom'') (Some ''boom'') []) api_open [] =
     (api_shut, [E_listener_Close 7, E_conn_Close 5, E_conn_Close 6, E_log_Println]) \<and>
   getConnection api_open ''c1'' = Some 5 \<and> getConnection api_open ''c2'' = Some 6 \<and>
   E_conn_Close 5 \<in> set [E_listener_Close 7, E_conn_Close 5, E_conn_Close 6, E_log_Println] \<and>
   E_conn_Close 6 \<in> set [E_listener_Close 7, E_conn_Close 5, E_conn_Close 6, E_log_Println] \<and>
   ConnRead (scripted (Some ''boom'') (Some ''boom'') []) api_shut [] ''c1'' =
     Returns (('''', Some (NotFound ''[ConnRead] not found connection with id: c1'')),
              api_shut, []) \<and>
   ConnWrite (scripted (Some ''boom'') (Some ''boom'') []) api_shut [] ''c2'' ''x'' =
     Returns (Some (NotFound ''[ConnWrite] not found connection with id: c2''), api_shut, []) \<and>
   ConnClose (scripted (Some ''boom'') (Some ''boom'') []) api_shut [] ''c2'' =
     Returns (Some (NotFound ''[ConnClose] not found connection with id: c2''), api_shut, [])"
proof -
  let ?S = "scripted (Some ''boom'') (Some ''boom'') []"
  let ?H = "[E_listener_Close 7, E_conn_Close 5, E_conn_Close 6, E_log_Println]"
  have h: "CloseAppHostFlatAdapter ?S api_open [] = (api_shut, ?H)"
    by code_simp
  have g: "getConnection api_open ''c1'' = Some 5" "getConnection api_open ''c2'' = Some 6"
    by (simp_all add: getConnection_def api_open_def)
  note t = shutdown_closes_everything [OF h]
  from t g have "E_conn_Close 5 \<in> set (drop (length ([] :: event list)) ?H)"
    and "E_conn_Close 6 \<in> set (drop (length ([] :: event list)) ?H)"
    by blast+
  moreover from t have
    "ConnRead ?S api_shut [] ''c1'' =
       Returns (('''', Some (NotFound (''[ConnRead] not found connection with id: '' @ ''c1''))),
                api_shut, [])"
    "ConnWrite ?S api_shut [] ''c2'' ''x'' =
       Returns (Some (NotFound (''[ConnWrite] not found connection with id: '' @ ''c2'')),
                api_shut, [])"
    "ConnClose ?S api_shut [] ''c2'' =
       Returns (Some (NotFound (''[ConnClose] not found connection with id: '' @ ''c2'')),
                api_shut, [])"
    by blast+
  ultimately show ?thesis using h g by simp
qed

end
